theory Spec2Isabelle
  imports Complex_Main "HOL-Library.Word"
begin

section \<open>Time formatting\<close>

text \<open>
  \<^verbatim>\<open>formatTime\<close> of \<^verbatim>\<open>VoiceRecorder.tsx\<close>. The argument is the counter
  \<^verbatim>\<open>recordingTime\<close>, a JavaScript number that only ever holds a natural number; it is a
  \<open>nat\<close> here, which is exact up to \<^verbatim>\<open>Number.MAX_SAFE_INTEGER\<close>.
  \<^verbatim>\<open>Number.prototype.toString\<close> of such a number is its decimal numeral, and
  \<^verbatim>\<open>padStart(2, '0')\<close> puts zeros in front of a string shorter than two characters.
\<close>

definition MAX_SAFE_INTEGER :: nat where
  "MAX_SAFE_INTEGER = 9007199254740991"

definition digitChar :: "nat \<Rightarrow> char" where
  "digitChar d = ''0123456789'' ! d"

fun toString :: "nat \<Rightarrow> string" where
  "toString n = (if n < 10 then [digitChar n] else toString (n div 10) @ [digitChar (n mod 10)])"

declare toString.simps [simp del]

definition padStart :: "nat \<Rightarrow> char \<Rightarrow> string \<Rightarrow> string" where
  "padStart targetLength c s = replicate (targetLength - length s) c @ s"

definition formatTime :: "nat \<Rightarrow> string" where
  "formatTime seconds =
     (let mins = seconds div 60;
          secs = seconds mod 60
      in padStart 2 (CHR ''0'') (toString mins) @ '':'' @ padStart 2 (CHR ''0'') (toString secs))"

text \<open>Reading a decimal field back, to say what a rendered field denotes.\<close>

definition digitVal :: "char \<Rightarrow> nat" where
  "digitVal c = of_char c - 48"

definition isDigit :: "char \<Rightarrow> bool" where
  "isDigit c = (c \<in> set ''0123456789'')"

definition fieldValue :: "string \<Rightarrow> nat" where
  "fieldValue s = foldl (\<lambda>a c. 10 * a + digitVal c) 0 s"

section \<open>Download file name\<close>

text \<open>
  \<^verbatim>\<open>downloadAudio\<close> names the file
  \<^verbatim>\<open>`gravacao-${new Date().toISOString().slice(0, 19).replace(/:/g, '-')}.wav`\<close>.
  The clock is the host's: the result of \<^verbatim>\<open>toISOString()\<close> is a parameter.
  \<^verbatim>\<open>slice(0, 19)\<close> keeps the first 19 characters (all of a shorter string) and the
  global regular expression replaces every colon.
\<close>

definition replaceColons :: "string \<Rightarrow> string" where
  "replaceColons s = map (\<lambda>c. if c = CHR '':'' then CHR ''-'' else c) s"

definition downloadName :: "string \<Rightarrow> string" where
  "downloadName stamp = ''gravacao-'' @ replaceColons (take 19 stamp) @ ''.wav''"

section \<open>The recording lifecycle controller\<close>

subsection \<open>Data\<close>

text \<open>
  A \<^verbatim>\<open>Blob\<close> is its bytes and its declared media type; \<^verbatim>\<open>blob.size\<close> is the number
  of bytes. The chunks the recorder hands to \<^verbatim>\<open>ondataavailable\<close> are used by the
  component only through their size and their bytes, so a chunk is its byte sequence.
\<close>

type_synonym bytes = "8 word list"

record blob =
  bdata :: bytes
  btype :: string

text \<open>
  The six calls of \<^verbatim>\<open>toast\<close>, named by their titles: "Gravacao iniciada", "Erro"
  (the only one with \<^verbatim>\<open>variant: "destructive"\<close>), "Gravacao retomada",
  "Gravacao pausada", "Gravacao finalizada", "Transcricao concluida".
\<close>

datatype toast =
  ToastStarted | ToastError | ToastResumed | ToastPaused | ToastFinished | ToastTranscribed

text \<open>
  The host's \<^verbatim>\<open>MediaRecorder\<close>: its \<^verbatim>\<open>state\<close> attribute, the stream it records, the
  data gathered and not yet delivered, and whether \<^verbatim>\<open>stop()\<close> has queued the task that
  fires \<^verbatim>\<open>dataavailable\<close> and then \<^verbatim>\<open>stop\<close>.
\<close>

datatype rstate = Inactive | RRecording | RPaused

record recorder =
  rstream :: nat
  rstate :: rstate
  gathered :: bytes
  stopQueued :: bool

datatype error = InvalidStateError

text \<open>
  The component: the five \<^verbatim>\<open>useState\<close> cells, the four \<^verbatim>\<open>useRef\<close> cells, and the
  part of the host the handlers act on: the recorder objects by handle, the streams that
  still have a live track, the intervals and timeouts that are pending (a timeout by its
  delay in milliseconds), the number of \<^verbatim>\<open>getUserMedia\<close> requests that have not
  settled yet, the next fresh handle, and the toasts shown so far. Handles are positive,
  as browser timer ids are, so a stored handle is truthy.
\<close>

record world =
  isRecording :: bool
  isPaused :: bool
  recordingTime :: nat
  transcription :: string
  audioBlob :: "blob option"
  mediaRecorderRef :: "nat option"
  streamRef :: "nat option"
  chunksRef :: "bytes list"
  timerRef :: "nat option"
  recorders :: "nat \<rightharpoonup> recorder"
  liveStreams :: "nat list"
  intervals :: "nat list"
  timeouts :: "nat list"
  pendingStarts :: nat
  nextHandle :: nat
  toasts :: "toast list"

definition init :: world where
  "init = \<lparr> isRecording = False, isPaused = False, recordingTime = 0, transcription = [],
            audioBlob = None, mediaRecorderRef = None, streamRef = None, chunksRef = [],
            timerRef = None, recorders = Map.empty, liveStreams = [], intervals = [],
            timeouts = [], pendingStarts = 0, nextHandle = 1, toasts = [] \<rparr>"

definition toast :: "toast \<Rightarrow> world \<Rightarrow> world" where
  "toast t w = w\<lparr>toasts := toasts w @ [t]\<rparr>"

subsection \<open>Timer\<close>

definition startTimer :: "world \<Rightarrow> world" where
  "startTimer w =
     w\<lparr>timerRef := Some (nextHandle w),
       intervals := intervals w @ [nextHandle w],
       nextHandle := Suc (nextHandle w)\<rparr>"

definition stopTimer :: "world \<Rightarrow> world" where
  "stopTimer w =
     (case timerRef w of
        None \<Rightarrow> w
      | Some t \<Rightarrow> w\<lparr>intervals := removeAll t (intervals w), timerRef := None\<rparr>)"

text \<open>One second passes: every pending interval runs \<^verbatim>\<open>setRecordingTime(prev => prev + 1)\<close>.\<close>

definition tick :: "world \<Rightarrow> world" where
  "tick w = w\<lparr>recordingTime := recordingTime w + length (intervals w)\<rparr>"

subsection \<open>The recorder's methods and the stream's tracks\<close>

text \<open>
  The contract of the host's recorder: \<^verbatim>\<open>pause()\<close> and \<^verbatim>\<open>resume()\<close> throw
  \<^verbatim>\<open>InvalidStateError\<close> on an inactive recorder and set the state otherwise;
  \<^verbatim>\<open>stop()\<close> does nothing on an inactive recorder and otherwise makes it inactive and
  queues the task that delivers the gathered data and fires \<^verbatim>\<open>stop\<close>.
\<close>

definition recorderPause :: "nat \<Rightarrow> world \<Rightarrow> error + world" where
  "recorderPause h w =
     (case recorders w h of
        None \<Rightarrow> Inl InvalidStateError
      | Some r \<Rightarrow>
          if rstate r = Inactive then Inl InvalidStateError
          else Inr (w\<lparr>recorders := (recorders w)(h \<mapsto> r\<lparr>rstate := RPaused\<rparr>)\<rparr>))"

definition recorderResume :: "nat \<Rightarrow> world \<Rightarrow> error + world" where
  "recorderResume h w =
     (case recorders w h of
        None \<Rightarrow> Inl InvalidStateError
      | Some r \<Rightarrow>
          if rstate r = Inactive then Inl InvalidStateError
          else Inr (w\<lparr>recorders := (recorders w)(h \<mapsto> r\<lparr>rstate := RRecording\<rparr>)\<rparr>))"

definition recorderStop :: "nat \<Rightarrow> world \<Rightarrow> world" where
  "recorderStop h w =
     (case recorders w h of
        None \<Rightarrow> w
      | Some r \<Rightarrow>
          if rstate r = Inactive then w
          else w\<lparr>recorders := (recorders w)(h \<mapsto> r\<lparr>rstate := Inactive, stopQueued := True\<rparr>)\<rparr>)"

text \<open>\<^verbatim>\<open>stream.getTracks().forEach(track => track.stop())\<close>\<close>

definition stopTracks :: "nat \<Rightarrow> world \<Rightarrow> world" where
  "stopTracks s w = w\<lparr>liveStreams := removeAll s (liveStreams w)\<rparr>"

subsection \<open>Handlers\<close>

text \<open>
  \<^verbatim>\<open>startRecording\<close> is asynchronous. Up to \<^verbatim>\<open>await getUserMedia\<close> it only issues
  the request (\<open>requestStart\<close>); it reads and writes the component only after the request
  has settled, without looking at the state again (\<open>startRecording\<close>). The outcome is
  the host's: the request is rejected; or a stream is granted and
  \<^verbatim>\<open>new MediaRecorder\<close> throws; or the recorder is built and its \<^verbatim>\<open>start()\<close> throws; or
  all of it succeeds. Every throw lands in the one \<^verbatim>\<open>catch\<close>, which shows the error toast
  and undoes nothing.
\<close>

datatype media_error = NotAllowedError | NotFoundError

datatype outcome =
  Rejected media_error | RecorderCtorThrows | RecorderStartThrows | Granted

definition requestStart :: "world \<Rightarrow> world" where
  "requestStart w = w\<lparr>pendingStarts := Suc (pendingStarts w)\<rparr>"

definition startRecording :: "outcome \<Rightarrow> world \<Rightarrow> world" where
  "startRecording out w =
     (case out of
        Rejected e \<Rightarrow> toast ToastError w
      | _ \<Rightarrow>
          let s = nextHandle w;
              w1 = w\<lparr>streamRef := Some s, liveStreams := liveStreams w @ [s],
                     nextHandle := Suc s\<rparr>
          in if out = RecorderCtorThrows then toast ToastError w1
             else
               let h = nextHandle w1;
                   w2 = w1\<lparr>mediaRecorderRef := Some h,
                           recorders := (recorders w1)(h \<mapsto>
                              \<lparr>rstream = s, rstate = Inactive, gathered = [],
                               stopQueued = False\<rparr>),
                           chunksRef := [],
                           nextHandle := Suc h\<rparr>
               in if out = RecorderStartThrows then toast ToastError w2
                  else
                    let w3 = w2\<lparr>recorders := (recorders w2)(h \<mapsto>
                                  \<lparr>rstream = s, rstate = RRecording, gathered = [],
                                   stopQueued = False\<rparr>),
                                isRecording := True, isPaused := False\<rparr>
                    in toast ToastStarted (startTimer w3))"

definition pauseRecording :: "world \<Rightarrow> error + world" where
  "pauseRecording w =
     (case mediaRecorderRef w of
        None \<Rightarrow> Inr w
      | Some h \<Rightarrow>
          if isRecording w then
            if isPaused w then
              (case recorderResume h w of
                 Inl e \<Rightarrow> Inl e
               | Inr w1 \<Rightarrow> Inr (toast ToastResumed ((startTimer w1)\<lparr>isPaused := False\<rparr>)))
            else
              (case recorderPause h w of
                 Inl e \<Rightarrow> Inl e
               | Inr w1 \<Rightarrow> Inr (toast ToastPaused ((stopTimer w1)\<lparr>isPaused := True\<rparr>)))
          else Inr w)"

definition stopRecording :: "world \<Rightarrow> world" where
  "stopRecording w =
     (case mediaRecorderRef w of
        None \<Rightarrow> w
      | Some h \<Rightarrow>
          if isRecording w then
            let w1 = (stopTimer (recorderStop h w))\<lparr>isRecording := False, isPaused := False\<rparr>;
                w2 = (case streamRef w1 of None \<Rightarrow> w1 | Some s \<Rightarrow> stopTracks s w1)
            in toast ToastFinished w2
          else w)"

definition resetRecording :: "world \<Rightarrow> world" where
  "resetRecording w =
     stopTimer (w\<lparr>recordingTime := 0, transcription := [], audioBlob := None,
                  isRecording := False, isPaused := False\<rparr>)"

text \<open>
  The three sample texts. A character stands for one code unit of the JavaScript string;
  the accented letters of the source are all below 256 and are written by their code.
\<close>

definition sampleTranscriptions :: "string list" where
  "sampleTranscriptions =
     [
      ''Esta '' @ [CHR 0xE9] @ '' uma transcri'' @ [CHR 0xE7, CHR 0xE3]
        @ ''o de exemplo do seu '' @ [CHR 0xE1]
        @ ''udio gravado. Em um aplicativo real, isso seria processado por um servi''
        @ [CHR 0xE7] @ ''o de transcri'' @ [CHR 0xE7, CHR 0xE3]
        @ ''o como Google Speech-to-Text ou Azure Speech Services.'',
      ''Ol'' @ [CHR 0xE1] @ '', esta '' @ [CHR 0xE9] @ '' uma demonstra'' @ [CHR 0xE7, CHR 0xE3]
        @ ''o do recurso de transcri'' @ [CHR 0xE7, CHR 0xE3] @ ''o de voz. O '' @ [CHR 0xE1]
        @ ''udio foi gravado com sucesso e est'' @ [CHR 0xE1]
        @ '' sendo processado para texto.'',
      ''Transcri'' @ [CHR 0xE7, CHR 0xE3] @ ''o conclu'' @ [CHR 0xED]
        @ ''da! Este texto representa o que foi falado durante a grava'' @ [CHR 0xE7, CHR 0xE3]
        @ ''o. A qualidade da transcri'' @ [CHR 0xE7, CHR 0xE3] @ ''o depende da clareza do ''
        @ [CHR 0xE1] @ ''udio e da qualidade do microfone.''
     ]"

text \<open>\<^verbatim>\<open>simulateTranscription\<close>: \<^verbatim>\<open>setTimeout(..., 2000)\<close>.\<close>

definition simulateTranscription :: "world \<Rightarrow> world" where
  "simulateTranscription w = w\<lparr>timeouts := timeouts w @ [2000]\<rparr>"

text \<open>
  \<^verbatim>\<open>Math.random()\<close> returns a binary64 number in [0, 1). Such a number is
  \<open>m / 2 ^ k\<close> for naturals \<open>m < 2 ^ 53\<close> and \<open>k \<le> 1074\<close>, and every such quotient is
  a binary64 number.
\<close>

definition isRandom :: "nat \<Rightarrow> nat \<Rightarrow> bool" where
  "isRandom m k = (m < 2 ^ 53 \<and> m < 2 ^ k \<and> k \<le> 1074)"

text \<open>
  The binary64 product \<^verbatim>\<open>Math.random() * sampleTranscriptions.length\<close>: the exact
  product \<open>p / 2 ^ k\<close> rounded to 53 significant bits, to the nearest and on a tie to
  the even significand. \<open>excess p\<close> is the number of bits of \<open>p\<close> beyond 53,
  \<open>roundNearestEven s p\<close> rounds \<open>p\<close> to a multiple of \<open>2 ^ s\<close>, and
  \<open>randomProduct m k / 2 ^ k\<close> is the product. \<^verbatim>\<open>Math.floor\<close> of it is exact.
\<close>

fun excess :: "nat \<Rightarrow> nat" where
  "excess p = (if p < 2 ^ 53 then 0 else Suc (excess (p div 2)))"

declare excess.simps [simp del]

definition roundNearestEven :: "nat \<Rightarrow> nat \<Rightarrow> nat" where
  "roundNearestEven s p =
     (let q = p div 2 ^ s;
          rest = p mod 2 ^ s
      in (if 2 * rest > 2 ^ s \<or> (2 * rest = 2 ^ s \<and> odd q) then q + 1 else q) * 2 ^ s)"

definition randomProduct :: "nat \<Rightarrow> nat \<Rightarrow> nat" where
  "randomProduct m k =
     (let p = m * length sampleTranscriptions in roundNearestEven (excess p) p)"

definition randomIndex :: "nat \<Rightarrow> nat \<Rightarrow> nat" where
  "randomIndex m k = randomProduct m k div 2 ^ k"

text \<open>
  The callback of that timeout, run by the host when a timeout is pending, with the value
  \<open>m / 2 ^ k\<close> that \<^verbatim>\<open>Math.random()\<close> returns. For a value that is not a binary64
  number in [0, 1), which the host never returns, the model leaves the world alone.
\<close>

definition transcriptionTimeout :: "nat \<Rightarrow> nat \<Rightarrow> world \<Rightarrow> world" where
  "transcriptionTimeout m k w =
     (case timeouts w of
        [] \<Rightarrow> w
      | d # ds \<Rightarrow>
          if isRandom m k then
            toast ToastTranscribed
              (w\<lparr>timeouts := ds, transcription := sampleTranscriptions ! randomIndex m k\<rparr>)
          else w)"

text \<open>The two callbacks that \<^verbatim>\<open>startRecording\<close> installs on the recorder.\<close>

definition ondataavailable :: "bytes \<Rightarrow> world \<Rightarrow> world" where
  "ondataavailable d w = (if length d > 0 then w\<lparr>chunksRef := chunksRef w @ [d]\<rparr> else w)"

definition onstop :: "world \<Rightarrow> world" where
  "onstop w =
     simulateTranscription
       (w\<lparr>audioBlob := Some \<lparr>bdata = concat (chunksRef w), btype = ''audio/wav''\<rparr>\<rparr>)"

text \<open>The cleanup of the mount effect; it clears the interval and leaves the ref.\<close>

definition unmount :: "world \<Rightarrow> world" where
  "unmount w =
     (let w1 = (case timerRef w of
                  None \<Rightarrow> w
                | Some t \<Rightarrow> w\<lparr>intervals := removeAll t (intervals w)\<rparr>)
      in case streamRef w1 of None \<Rightarrow> w1 | Some s \<Rightarrow> stopTracks s w1)"

text \<open>\<^verbatim>\<open>downloadAudio\<close>: the file offered, if there is a blob.\<close>

definition downloadAudio :: "string \<Rightarrow> world \<Rightarrow> (string \<times> blob) option" where
  "downloadAudio stamp w =
     (case audioBlob w of None \<Rightarrow> None | Some b \<Rightarrow> Some (downloadName stamp, b))"

subsection \<open>What the host does with a recorder\<close>

text \<open>
  Audio arrives from the microphone: a recorder gathers it while its state is
  \<^verbatim>\<open>recording\<close> and its stream has a live track. At its discretion the host delivers
  what a recorder that is not inactive has gathered (\<^verbatim>\<open>dataavailable\<close>); and it runs
  the task queued by \<^verbatim>\<open>stop()\<close>, which delivers the rest and then fires \<^verbatim>\<open>stop\<close>.
  Every recorder of the component carries the same two callbacks, which reach the chunk
  list through the shared ref.
\<close>

definition capture :: "bytes \<Rightarrow> world \<Rightarrow> world" where
  "capture bs w =
     w\<lparr>recorders := (\<lambda>h. case recorders w h of
                             None \<Rightarrow> None
                           | Some r \<Rightarrow>
                               Some (if rstate r = RRecording \<and> rstream r \<in> set (liveStreams w)
                                     then r\<lparr>gathered := gathered r @ bs\<rparr> else r))\<rparr>"

definition flush :: "nat \<Rightarrow> world \<Rightarrow> world" where
  "flush h w =
     (case recorders w h of
        None \<Rightarrow> w
      | Some r \<Rightarrow>
          if rstate r = Inactive then w
          else ondataavailable (gathered r)
                 (w\<lparr>recorders := (recorders w)(h \<mapsto> r\<lparr>gathered := []\<rparr>)\<rparr>))"

definition stopTask :: "nat \<Rightarrow> world \<Rightarrow> world" where
  "stopTask h w =
     (case recorders w h of
        None \<Rightarrow> w
      | Some r \<Rightarrow>
          if stopQueued r then
            onstop (ondataavailable (gathered r)
              (w\<lparr>recorders := (recorders w)(h \<mapsto> r\<lparr>gathered := [], stopQueued := False\<rparr>)\<rparr>))
          else w)"

subsection \<open>Events and runs\<close>

text \<open>
  A click on a start control issues the request (\<open>StartClick\<close>) and the request settles
  later (\<open>StartSettled\<close>), with other events, further clicks included, in between.
  \<open>Start\<close> is the click whose request settles before anything else happens.
\<close>

datatype event =
    Start outcome
  | StartClick
  | StartSettled outcome
  | PauseResume
  | Stop
  | Reset
  | Tick
  | Capture bytes
  | Flush nat
  | RecorderStopped nat
  | Timeout nat nat

text \<open>
  An exception that leaves \<^verbatim>\<open>pauseRecording\<close> is thrown before the handler has written
  anything, so the component is as it was.
\<close>

fun step :: "event \<Rightarrow> world \<Rightarrow> world" where
  "step (Start out) w = startRecording out w"
| "step StartClick w = requestStart w"
| "step (StartSettled out) w =
     (if pendingStarts w = 0 then w
      else startRecording out (w\<lparr>pendingStarts := pendingStarts w - 1\<rparr>))"
| "step PauseResume w = (case pauseRecording w of Inl e \<Rightarrow> w | Inr w' \<Rightarrow> w')"
| "step Stop w = stopRecording w"
| "step Reset w = resetRecording w"
| "step Tick w = tick w"
| "step (Capture bs) w = capture bs w"
| "step (Flush h) w = flush h w"
| "step (RecorderStopped h) w = stopTask h w"
| "step (Timeout m k) w = transcriptionTimeout m k w"

fun run :: "world \<Rightarrow> event list \<Rightarrow> world" where
  "run w [] = w"
| "run w (e # es) = run (step e w) es"

text \<open>
  The component has no state variable of its own for the four states of the lifecycle;
  they are read off the two flags, and Stopped is told from Idle the way the rendering
  does it: there is something to reset (a string is truthy when it is not empty).
\<close>

datatype phase = Idle | Recording | Paused | Stopped

definition phase :: "world \<Rightarrow> phase" where
  "phase w =
     (if isRecording w then (if isPaused w then Paused else Recording)
      else if recordingTime w > 0 \<or> length (transcription w) > 0 \<or> audioBlob w \<noteq> None
           then Stopped else Idle)"

text \<open>
  The controls as the component renders them: which handler a click can reach in which
  state.
\<close>

datatype control =
  MicCircle | StartButton | PauseButton | StopButton | ResetButton | DownloadButton

fun offered :: "world \<Rightarrow> control \<Rightarrow> bool" where
  "offered w MicCircle = (\<not> isRecording w)"
| "offered w StartButton = (\<not> isRecording w)"
| "offered w PauseButton = isRecording w"
| "offered w StopButton = isRecording w"
| "offered w ResetButton =
     ((recordingTime w > 0 \<or> length (transcription w) > 0 \<or> audioBlob w \<noteq> None) \<and> \<not> isRecording w)"
| "offered w DownloadButton =
     ((recordingTime w > 0 \<or> length (transcription w) > 0 \<or> audioBlob w \<noteq> None) \<and> \<not> isRecording w
      \<and> audioBlob w \<noteq> None)"

text \<open>
  A valid transition: a user action through a control that is offered when the user
  clicks, or something the host does. The start controls are checked at the click; a
  request settles whenever one is pending, whatever the state is by then.
\<close>

fun valid :: "world \<Rightarrow> event \<Rightarrow> bool" where
  "valid w (Start out) = offered w StartButton"
| "valid w StartClick = offered w StartButton"
| "valid w (StartSettled out) = (pendingStarts w > 0)"
| "valid w PauseResume = offered w PauseButton"
| "valid w Stop = offered w StopButton"
| "valid w Reset = offered w ResetButton"
| "valid w (Timeout m k) = isRandom m k"
| "valid w _ = True"

fun validRun :: "world \<Rightarrow> event list \<Rightarrow> bool" where
  "validRun w [] = True"
| "validRun w (e # es) = (valid w e \<and> validRun (step e w) es)"

text \<open>
  The specification knows two outcomes of a start: the device is acquired and recording
  begins, or the acquisition fails.
\<close>

fun acquisitionOutcome :: "event \<Rightarrow> bool" where
  "acquisitionOutcome (Start Granted) = True"
| "acquisitionOutcome (Start (Rejected e)) = True"
| "acquisitionOutcome (Start out) = False"
| "acquisitionOutcome (StartSettled Granted) = True"
| "acquisitionOutcome (StartSettled (Rejected e)) = True"
| "acquisitionOutcome (StartSettled out) = False"
| "acquisitionOutcome e = True"

text \<open>
  A request settles unhurried when no other start has taken effect since its click: the
  component is still not recording.
\<close>

fun unhurried :: "world \<Rightarrow> event \<Rightarrow> bool" where
  "unhurried w (StartSettled out) = (isRecording w = False)"
| "unhurried w e = True"

fun unhurriedRun :: "world \<Rightarrow> event list \<Rightarrow> bool" where
  "unhurriedRun w [] = True"
| "unhurriedRun w (e # es) = (valid w e \<and> unhurried w e \<and> unhurriedRun (step e w) es)"





text \<open>Successive deliveries to \<^verbatim>\<open>ondataavailable\<close>.\<close>

fun deliver :: "bytes list \<Rightarrow> world \<Rightarrow> world" where
  "deliver [] w = w"
| "deliver (d # ds) w = deliver ds (ondataavailable d w)"


subsection \<open>Invariants\<close>

text \<open>
  The interval held in the timer ref is the only pending one, and there is one exactly
  while the component records and is not paused.
\<close>

definition timerInv :: "world \<Rightarrow> bool" where
  "timerInv w =
     (case timerRef w of
        None \<Rightarrow> intervals w = [] \<and> (isRecording w \<and> \<not> isPaused w) = False
      | Some t \<Rightarrow> intervals w = [t] \<and> isRecording w \<and> \<not> isPaused w)"

text \<open>
  With starts that either acquire the device and record or fail to acquire it, one at a
  time: the stream
  in the stream ref is the only one with a live track, and it is live exactly while the
  component records or is paused; a recorder is stored whenever it does.
\<close>

definition streamInv :: "world \<Rightarrow> bool" where
  "streamInv w =
     ((case streamRef w of
         None \<Rightarrow> liveStreams w = []
       | Some s \<Rightarrow> liveStreams w = (if isRecording w then [s] else []))
      \<and> (case mediaRecorderRef w of None \<Rightarrow> isRecording w = False | Some h \<Rightarrow> True))"





section \<open>Properties of the time format\<close>

lemma digitVal_digitChar: "d < 10 \<Longrightarrow> digitVal (digitChar d) = d"
  unfolding digitVal_def digitChar_def
  by (cases d rule: nat.exhaust; simp add: numeral_nat less_Suc_eq; elim disjE; simp)

lemma isDigit_digitChar: "d < 10 \<Longrightarrow> isDigit (digitChar d)"
  unfolding isDigit_def digitChar_def
  by (cases d rule: nat.exhaust; simp add: numeral_nat less_Suc_eq; elim disjE; simp)

lemma fieldValue_snoc: "fieldValue (s @ [c]) = 10 * fieldValue s + digitVal c"
  by (simp add: fieldValue_def)

lemma fieldValue_toString: "fieldValue (toString n) = n"
proof (induction n rule: toString.induct)
  case (1 n)
  show ?case
  proof (cases "n < 10")
    case True
    then show ?thesis
      by (subst toString.simps) (simp add: fieldValue_def digitVal_digitChar)
  next
    case False
    then have "fieldValue (toString (n div 10)) = n div 10" using 1 by simp
    with False show ?thesis
      by (subst toString.simps) (simp add: fieldValue_snoc digitVal_digitChar)
  qed
qed

lemma digits_toString: "list_all isDigit (toString n)"
proof (induction n rule: toString.induct)
  case (1 n)
  show ?case
  proof (cases "n < 10")
    case True
    then show ?thesis by (subst toString.simps) (simp add: isDigit_digitChar)
  next
    case False
    with 1 show ?thesis by (subst toString.simps) (simp add: isDigit_digitChar)
  qed
qed

lemma length_toString_pos: "0 < length (toString n)"
  by (subst toString.simps) simp

lemma length_toString_small:
  assumes "n < 100"
  shows "length (toString n) \<le> 2"
proof (cases "n < 10")
  case True
  then show ?thesis by (subst toString.simps) simp
next
  case False
  from assms have "n div 10 < 10" by simp
  then have "length (toString (n div 10)) = 1" by (subst toString.simps) simp
  with False show ?thesis by (subst toString.simps) simp
qed

lemma fieldValue_zeros: "fieldValue (replicate k (CHR ''0'') @ s) = fieldValue s"
proof -
  have "foldl (\<lambda>a c. 10 * a + digitVal c) 0 (replicate k (CHR ''0'')) = 0"
    by (induction k) (simp_all add: digitVal_def)
  then show ?thesis by (simp add: fieldValue_def)
qed

lemma fieldValue_padStart: "fieldValue (padStart 2 (CHR ''0'') s) = fieldValue s"
  by (simp add: padStart_def fieldValue_zeros)

lemma isDigit_zero: "isDigit (CHR ''0'')"
  by (simp add: isDigit_def)

lemma digits_padStart: "list_all isDigit s \<Longrightarrow> list_all isDigit (padStart 2 (CHR ''0'') s)"
  by (simp add: padStart_def list_all_iff isDigit_zero ball_Un)

lemma length_padStart: "length (padStart 2 c s) = max 2 (length s)"
  by (simp add: padStart_def)

text \<open>
  Claim C6. For a count of seconds that a JavaScript number holds exactly, the rendering is
  a minutes field, a colon and a seconds field: the seconds field has exactly two digits
  and reads \<open>seconds mod 60\<close>, the minutes field is the decimal numeral of
  \<open>seconds div 60\<close> padded with zeros to two digits and never reduced modulo an
  hour; 0, 59, 60 and 3661 render as 00:00, 00:59, 01:00 and 61:01.
\<close>

theorem formatTime_MM_SS:
  assumes "seconds \<le> MAX_SAFE_INTEGER"
  shows "(\<exists>mm ss. formatTime seconds = mm @ '':'' @ ss
            \<and> length ss = 2
            \<and> length mm = max 2 (length (toString (seconds div 60)))
            \<and> list_all isDigit (mm @ ss)
            \<and> fieldValue mm = seconds div 60
            \<and> fieldValue ss = seconds mod 60)
         \<and> formatTime 0 = ''00:00'' \<and> formatTime 59 = ''00:59''
         \<and> formatTime 60 = ''01:00'' \<and> formatTime 3661 = ''61:01''"
proof -
  let ?mm = "padStart 2 (CHR ''0'') (toString (seconds div 60))"
  let ?ss = "padStart 2 (CHR ''0'') (toString (seconds mod 60))"
  have "seconds mod 60 < 100" by (rule less_trans [OF mod_less_divisor]) simp_all
  then have len: "length ?ss = 2"
    using length_toString_small [of "seconds mod 60"] length_toString_pos [of "seconds mod 60"]
    by (simp add: length_padStart)
  have "formatTime seconds = ?mm @ '':'' @ ?ss" by (simp add: formatTime_def)
  moreover have "list_all isDigit (?mm @ ?ss)"
    by (simp add: digits_padStart digits_toString)
  ultimately have ex: "\<exists>mm ss. formatTime seconds = mm @ '':'' @ ss
            \<and> length ss = 2
            \<and> length mm = max 2 (length (toString (seconds div 60)))
            \<and> list_all isDigit (mm @ ss)
            \<and> fieldValue mm = seconds div 60
            \<and> fieldValue ss = seconds mod 60"
    using len by (intro exI [of _ ?mm] exI [of _ ?ss])
      (simp add: length_padStart fieldValue_padStart fieldValue_toString)
  have "formatTime 0 = ''00:00''" "formatTime 59 = ''00:59''"
       "formatTime 60 = ''01:00''" "formatTime 3661 = ''61:01''"
    by (simp_all add: formatTime_def padStart_def toString.simps digitChar_def)
  with ex show ?thesis by blast
qed

theorem formatTime_MM_SS_witness:
  "(3661::nat) \<le> MAX_SAFE_INTEGER \<and> formatTime 3661 = ''61:01'' \<and> formatTime 0 = ''00:00''"
  using formatTime_MM_SS [of 3661] by (simp add: MAX_SAFE_INTEGER_def)

lemmas handler_defs =
  toast_def startTimer_def stopTimer_def tick_def recorderPause_def recorderResume_def
  recorderStop_def stopTracks_def startRecording_def pauseRecording_def stopRecording_def
  resetRecording_def simulateTranscription_def transcriptionTimeout_def ondataavailable_def
  requestStart_def
  onstop_def capture_def flush_def stopTask_def

section \<open>Properties of the download\<close>

text \<open>
  Claim C8 as stated fails: the name starts with the word of the source, not with
  "recording-", and the time stamp is cut after the seconds.
\<close>

theorem downloadName_prefix_counterexample:
  "downloadName ''2024-01-15T10:30:45.123Z'' = ''gravacao-2024-01-15T10-30-45.wav''
   \<and> take 10 (downloadName ''2024-01-15T10:30:45.123Z'') \<noteq> ''recording-''"
  by (simp add: downloadName_def replaceColons_def)

text \<open>
  Claim C8, amended. For every time stamp the file name is "gravacao-", then the first 19
  characters of the time stamp (date and time down to the seconds) with every colon
  replaced by a hyphen, then ".wav"; it holds no colon; and a download offers the stored
  blob under that name exactly when a blob is stored.
\<close>

theorem downloadName_shape:
  "(\<exists>mid. downloadName stamp = ''gravacao-'' @ mid @ ''.wav''
          \<and> mid = map (\<lambda>c. if c = CHR '':'' then CHR ''-'' else c) (take 19 stamp)
          \<and> length mid = min 19 (length stamp)
          \<and> CHR '':'' \<notin> set mid)
   \<and> CHR '':'' \<notin> set (downloadName stamp)
   \<and> downloadAudio stamp w = map_option (Pair (downloadName stamp)) (audioBlob w)"
proof -
  let ?mid = "replaceColons (take 19 stamp)"
  have 1: "CHR '':'' \<notin> set ?mid" by (auto simp: replaceColons_def)
  have 2: "length ?mid = min 19 (length stamp)" by (simp add: replaceColons_def min.commute)
  have 3: "downloadName stamp = ''gravacao-'' @ ?mid @ ''.wav''" by (simp add: downloadName_def)
  have 4: "CHR '':'' \<notin> set (downloadName stamp)" using 1 by (simp add: downloadName_def)
  have 5: "downloadAudio stamp w = map_option (Pair (downloadName stamp)) (audioBlob w)"
    by (simp add: downloadAudio_def split: option.splits)
  from 1 2 3 have "\<exists>mid. downloadName stamp = ''gravacao-'' @ mid @ ''.wav''
          \<and> mid = map (\<lambda>c. if c = CHR '':'' then CHR ''-'' else c) (take 19 stamp)
          \<and> length mid = min 19 (length stamp)
          \<and> CHR '':'' \<notin> set mid"
    by (intro exI [of _ ?mid]) (simp add: replaceColons_def)
  with 4 5 show ?thesis by blast
qed

section \<open>Properties of the handlers\<close>

text \<open>
  Claim C2 as stated fails: \<^verbatim>\<open>resetRecording\<close> checks no state. Invoked while
  Recording with one second on the counter it zeroes the counter and leaves Recording.
\<close>

theorem misuse_counterexample:
  "phase (run init [Start Granted, Tick]) = Recording
   \<and> recordingTime (run init [Start Granted, Tick]) = 1
   \<and> phase (resetRecording (run init [Start Granted, Tick])) = Idle
   \<and> recordingTime (resetRecording (run init [Start Granted, Tick])) = 0"
  by (simp add: init_def phase_def handler_defs)

text \<open>
  Claim C2, amended. When the component is not recording (Idle or Stopped), the
  pause/resume handler and the stop handler return without an error and leave every field,
  the notifications included, as it was. The start and reset handlers have no check of
  their own: while recording or paused the rendering offers neither.
\<close>

theorem misuse_noop:
  "(\<not> isRecording w \<longrightarrow> pauseRecording w = Inr w \<and> stopRecording w = w)
   \<and> (isRecording w \<longrightarrow>
        \<not> offered w StartButton \<and> \<not> offered w MicCircle \<and> \<not> offered w ResetButton)"
  by (simp add: pauseRecording_def stopRecording_def split: option.splits)

theorem misuse_noop_witness:
  "\<not> isRecording init \<and> pauseRecording init = Inr init \<and> stopRecording init = init
   \<and> isRecording (run init [Start Granted])
   \<and> \<not> offered (run init [Start Granted]) StartButton
   \<and> \<not> offered (run init [Start Granted]) ResetButton"
proof -
  have a: "\<not> isRecording init" by (simp add: init_def)
  have b: "isRecording (run init [Start Granted])" by (simp add: init_def handler_defs)
  from a b misuse_noop [of init] misuse_noop [of "run init [Start Granted]"]
  show ?thesis by blast
qed



text \<open>
  Claim C4 at a start whose stream is granted and whose recorder cannot be built, in a
  fresh component: the component stays Idle and shows one error toast, but the stream is
  stored and its track stays live; after a second such start and the teardown the first
  stream is still live.
\<close>

theorem startRecording_late_failure:
  "phase (startRecording RecorderCtorThrows init) = Idle
   \<and> streamRef (startRecording RecorderCtorThrows init) = Some 1
   \<and> liveStreams (startRecording RecorderCtorThrows init) = [1]
   \<and> toasts (startRecording RecorderCtorThrows init) = [ToastError]
   \<and> streamRef init = None
   \<and> liveStreams (unmount (run init [Start RecorderCtorThrows, Start RecorderCtorThrows])) = [1]"
  by (simp add: init_def phase_def handler_defs unmount_def)

text \<open>A rejected request changes nothing but the notifications.\<close>

lemma startRecording_rejected:
  "startRecording (Rejected e) w = w\<lparr>toasts := toasts w @ [ToastError]\<rparr>"
  by (simp add: startRecording_def toast_def)

section \<open>Properties of the elapsed-time counter\<close>

lemma timerInv_init: "timerInv init"
  by (simp add: timerInv_def init_def)

lemma timerInv_step:
  assumes "timerInv w" and "valid w e" and "unhurried w e"
  shows "timerInv (step e w)"
proof (cases e)
  case (Start out)
  with assms show ?thesis
    by (cases out) (auto simp: timerInv_def startRecording_def toast_def startTimer_def Let_def
        split: option.splits)
next
  case StartClick
  with assms show ?thesis by (auto simp: timerInv_def requestStart_def split: option.splits)
next
  case (StartSettled out)
  with assms show ?thesis
    by (cases out) (auto simp: timerInv_def startRecording_def toast_def startTimer_def Let_def
        split: option.splits)
next
  case PauseResume
  with assms show ?thesis
    by (auto simp: timerInv_def pauseRecording_def recorderPause_def recorderResume_def
        toast_def startTimer_def stopTimer_def split: option.splits)
next
  case Stop
  with assms show ?thesis
    by (auto simp: timerInv_def stopRecording_def recorderStop_def stopTracks_def
        toast_def stopTimer_def Let_def split: option.splits)
next
  case Reset
  with assms show ?thesis
    by (auto simp: timerInv_def resetRecording_def stopTimer_def split: option.splits)
next
  case Tick
  with assms show ?thesis by (auto simp: timerInv_def tick_def split: option.splits)
next
  case (Capture bs)
  with assms show ?thesis by (auto simp: timerInv_def capture_def split: option.splits)
next
  case (Flush h)
  with assms show ?thesis
    by (auto simp: timerInv_def flush_def ondataavailable_def split: option.splits)
next
  case (RecorderStopped h)
  with assms show ?thesis
    by (auto simp: timerInv_def stopTask_def ondataavailable_def onstop_def
        simulateTranscription_def split: option.splits)
next
  case (Timeout m k)
  with assms show ?thesis
    by (auto simp: timerInv_def transcriptionTimeout_def toast_def split: list.splits option.splits)
qed

lemma timerInv_run: "timerInv w \<Longrightarrow> unhurriedRun w es \<Longrightarrow> timerInv (run w es)"
  by (induction es arbitrary: w) (simp_all add: timerInv_step)

lemma tick_counts:
  "timerInv w \<Longrightarrow>
   recordingTime (tick w) = recordingTime w + (if phase w = Recording then 1 else 0)"
  by (auto simp: timerInv_def tick_def phase_def split: option.splits)

lemma recordingTime_step:
  "e \<noteq> Tick \<Longrightarrow> e \<noteq> Reset \<Longrightarrow> recordingTime (step e w) = recordingTime w"
  by (cases e) (auto simp: handler_defs Let_def split: option.splits list.splits outcome.splits)

text \<open>
  When every request settles unhurried, the counter behaves as specified: after such a
  run a tick adds 1 in Recording and nothing in any other state.
\<close>

lemma elapsed_when_unhurried:
  assumes "unhurriedRun init es"
  shows "recordingTime (step Tick (run init es))
           = recordingTime (run init es) + (if phase (run init es) = Recording then 1 else 0)"
proof -
  have "timerInv (run init es)" using assms timerInv_init by (rule timerInv_run [rotated])
  then show ?thesis using tick_counts by simp
qed

text \<open>
  Claim C1 at two clicks on a start control while the first request is still pending,
  both requests granted. Every transition is valid. The second start overwrites the timer
  ref without clearing the first interval, so in Recording one second-tick adds 2 to the
  counter; the stop clears only the second interval, so in Stopped a second-tick still
  adds 1. The scenario of the claim, with one start, does give 2.
\<close>

theorem double_start_counts_twice:
  "validRun init [StartClick, StartClick, StartSettled Granted, StartSettled Granted]
   \<and> phase (run init [StartClick, StartClick, StartSettled Granted, StartSettled Granted])
       = Recording
   \<and> intervals (run init [StartClick, StartClick, StartSettled Granted, StartSettled Granted])
       = [3, 6]
   \<and> recordingTime (run init [StartClick, StartClick, StartSettled Granted,
                               StartSettled Granted, Tick]) = 2
   \<and> validRun init [StartClick, StartClick, StartSettled Granted, StartSettled Granted,
                     Tick, Stop, Tick]
   \<and> phase (run init [StartClick, StartClick, StartSettled Granted, StartSettled Granted,
                       Tick, Stop]) = Stopped
   \<and> intervals (run init [StartClick, StartClick, StartSettled Granted, StartSettled Granted,
                           Tick, Stop]) = [3]
   \<and> recordingTime (run init [StartClick, StartClick, StartSettled Granted,
                               StartSettled Granted, Tick, Stop, Tick]) = 3
   \<and> recordingTime (run init [Start Granted, PauseResume, Tick, Tick, Tick, PauseResume,
                               Tick, Tick, Stop]) = 2"
  by (simp add: init_def phase_def handler_defs)

section \<open>Properties of the chunk list\<close>

lemma chunks_step:
  "list_all (\<lambda>c. c \<noteq> []) (chunksRef w) \<Longrightarrow>
   list_all (\<lambda>c. c \<noteq> []) (chunksRef (step e w))"
  by (cases e) (auto simp: handler_defs Let_def split: option.splits list.splits outcome.splits)

lemma chunks_run:
  "list_all (\<lambda>c. c \<noteq> []) (chunksRef w) \<Longrightarrow>
   list_all (\<lambda>c. c \<noteq> []) (chunksRef (run w es))"
  by (induction es arbitrary: w) (simp_all add: chunks_step)

lemma chunksRef_deliver:
  "chunksRef (deliver ds w) = chunksRef w @ filter (\<lambda>d. d \<noteq> []) ds"
  by (induction ds arbitrary: w) (simp_all add: ondataavailable_def)

lemma concat_nonempty: "concat (filter (\<lambda>d. d \<noteq> []) ds) = concat ds"
  by (induction ds) simp_all

text \<open>
  Claim C10. After any sequence of events every chunk in the chunk list is non-empty; a
  delivery of an empty chunk changes nothing; successive deliveries append the non-empty
  chunks in arrival order; and the blob built at the stop from such a list has the bytes of
  all the delivered chunks, the empty ones included.
\<close>

theorem chunks_nonempty:
  "list_all (\<lambda>c. 0 < length c) (chunksRef (run init es))
   \<and> ondataavailable [] w = w
   \<and> chunksRef (deliver ds w) = chunksRef w @ filter (\<lambda>d. 0 < length d) ds
   \<and> audioBlob (onstop (deliver ds (w\<lparr>chunksRef := []\<rparr>)))
       = Some \<lparr>bdata = concat ds, btype = ''audio/wav''\<rparr>"
proof -
  have 1: "list_all (\<lambda>c. 0 < length c) (chunksRef (run init es))"
    using chunks_run [of init es] by (simp add: init_def)
  have 2: "ondataavailable [] w = w" by (simp add: ondataavailable_def)
  have 3: "audioBlob (onstop (deliver ds (w\<lparr>chunksRef := []\<rparr>)))
       = Some \<lparr>bdata = concat ds, btype = ''audio/wav''\<rparr>"
    by (simp add: onstop_def simulateTranscription_def chunksRef_deliver concat_nonempty)
  have 4: "chunksRef (deliver ds w) = chunksRef w @ filter (\<lambda>d. 0 < length d) ds"
    by (simp add: chunksRef_deliver)
  from 1 2 3 4 show ?thesis by blast
qed

section \<open>Properties of the cleanup\<close>

lemma streamInv_init: "streamInv init"
  by (simp add: streamInv_def init_def)

lemma streamInv_step:
  assumes "streamInv w" and "valid w e" and "unhurried w e" and "acquisitionOutcome e"
  shows "streamInv (step e w)"
proof (cases e)
  case (Start out)
  with assms show ?thesis
    by (cases out) (auto simp: streamInv_def startRecording_def toast_def startTimer_def Let_def
        split: option.splits if_splits)
next
  case StartClick
  with assms show ?thesis by (auto simp: streamInv_def requestStart_def split: option.splits)
next
  case (StartSettled out)
  with assms show ?thesis
    by (cases out) (auto simp: streamInv_def startRecording_def toast_def startTimer_def Let_def
        split: option.splits if_splits)
next
  case PauseResume
  with assms show ?thesis
    by (auto simp: streamInv_def pauseRecording_def recorderPause_def recorderResume_def
        toast_def startTimer_def stopTimer_def split: option.splits if_splits)
next
  case Stop
  with assms show ?thesis
    by (auto simp: streamInv_def stopRecording_def recorderStop_def stopTracks_def
        toast_def stopTimer_def Let_def split: option.splits if_splits)
next
  case Reset
  with assms show ?thesis
    by (auto simp: streamInv_def resetRecording_def stopTimer_def split: option.splits if_splits)
next
  case Tick
  with assms show ?thesis by (auto simp: streamInv_def tick_def split: option.splits)
next
  case (Capture bs)
  with assms show ?thesis by (auto simp: streamInv_def capture_def split: option.splits)
next
  case (Flush h)
  with assms show ?thesis
    by (auto simp: streamInv_def flush_def ondataavailable_def split: option.splits)
next
  case (RecorderStopped h)
  with assms show ?thesis
    by (auto simp: streamInv_def stopTask_def ondataavailable_def onstop_def
        simulateTranscription_def split: option.splits)
next
  case (Timeout m k)
  with assms show ?thesis
    by (auto simp: streamInv_def transcriptionTimeout_def toast_def split: list.splits option.splits)
qed

lemma streamInv_run:
  "streamInv w \<Longrightarrow> unhurriedRun w es \<Longrightarrow> list_all acquisitionOutcome es \<Longrightarrow>
   streamInv (run w es)"
  by (induction es arbitrary: w) (simp_all add: streamInv_step)

lemma unmount_held:
  "(case streamRef w of None \<Rightarrow> True | Some s \<Rightarrow> s \<notin> set (liveStreams (unmount w)))
   \<and> (case timerRef w of None \<Rightarrow> True | Some t \<Rightarrow> t \<notin> set (intervals (unmount w)))"
  by (simp add: unmount_def stopTracks_def Let_def split: option.splits)

lemma unmount_all:
  "timerInv w \<Longrightarrow> streamInv w \<Longrightarrow> liveStreams (unmount w) = [] \<and> intervals (unmount w) = []"
  by (auto simp: timerInv_def streamInv_def unmount_def stopTracks_def Let_def
      split: option.splits if_splits)

lemma stop_all:
  "timerInv w \<Longrightarrow> streamInv w \<Longrightarrow> isRecording w \<Longrightarrow>
   liveStreams (stopRecording w) = [] \<and> intervals (stopRecording w) = []
   \<and> timerRef (stopRecording w) = None \<and> \<not> isRecording (stopRecording w)"
  by (auto simp: timerInv_def streamInv_def stopRecording_def recorderStop_def stopTimer_def
      toast_def stopTracks_def Let_def split: option.splits if_splits)

lemma idle_all:
  "timerInv w \<Longrightarrow> streamInv w \<Longrightarrow> \<not> isRecording w \<Longrightarrow>
   liveStreams w = [] \<and> intervals w = []"
  by (auto simp: timerInv_def streamInv_def split: option.splits if_splits)

text \<open>
  In any state whatever, the teardown stops the tracks of the stream held in the stream ref
  and clears the interval held in the timer ref (\<open>unmount_held\<close>). When every request
  settles unhurried and every start either records or fails to acquire the device, these
  are the only stream and interval there are, and the stop and the teardown leave none.
\<close>

lemma cleanup_when_unhurried:
  assumes "unhurriedRun init es" and "list_all acquisitionOutcome es"
  shows "liveStreams (unmount (run init es)) = []
         \<and> intervals (unmount (run init es)) = []
         \<and> (if isRecording (run init es)
             then liveStreams (stopRecording (run init es)) = []
                  \<and> intervals (stopRecording (run init es)) = []
             else liveStreams (run init es) = [] \<and> intervals (run init es) = [])"
proof -
  have t: "timerInv (run init es)" using assms(1) timerInv_init by (rule timerInv_run [rotated])
  have s: "streamInv (run init es)"
    using streamInv_init assms by (rule streamInv_run)
  show ?thesis
    using unmount_all [OF t s] stop_all [OF t s] idle_all [OF t s]
    by (cases "isRecording (run init es)") simp_all
qed

text \<open>
  Claim C9 on three paths the component can take, each made of valid transitions.
  Two clicks on a start control while the first request is pending, both granted, then the
  stop: the stop and the teardown release the second stream and interval, and the first
  stream keeps its live track and the first interval stays pending. A start whose recorder
  cannot be built, a second start that records, then the stop: the first stream keeps its
  live track through the stop and the teardown. A click, the teardown, and then the
  request settles: the continuation acquires a stream and starts an interval after the
  teardown. After one start and one stop, nothing is left.
\<close>

theorem cleanup_misses_overwritten_stream:
  "validRun init [StartClick, StartClick, StartSettled Granted, StartSettled Granted, Stop]
   \<and> phase (run init [StartClick, StartClick, StartSettled Granted, StartSettled Granted])
       = Recording
   \<and> isRecording (run init [StartClick, StartClick, StartSettled Granted,
                             StartSettled Granted, Stop]) = False
   \<and> liveStreams (run init [StartClick, StartClick, StartSettled Granted,
                             StartSettled Granted, Stop]) = [1]
   \<and> intervals (run init [StartClick, StartClick, StartSettled Granted,
                           StartSettled Granted, Stop]) = [3]
   \<and> liveStreams (unmount (run init [StartClick, StartClick, StartSettled Granted,
                                      StartSettled Granted, Stop])) = [1]
   \<and> intervals (unmount (run init [StartClick, StartClick, StartSettled Granted,
                                    StartSettled Granted, Stop])) = [3]
   \<and> liveStreams (unmount (run init [StartClick, StartClick, StartSettled Granted,
                                      StartSettled Granted])) = [1]
   \<and> intervals (unmount (run init [StartClick, StartClick, StartSettled Granted,
                                    StartSettled Granted])) = [3]
   \<and> validRun init [Start RecorderCtorThrows, Start Granted, Stop]
   \<and> liveStreams (run init [Start RecorderCtorThrows, Start Granted, Stop]) = [1]
   \<and> liveStreams (unmount (run init [Start RecorderCtorThrows, Start Granted, Stop])) = [1]
   \<and> valid init StartClick
   \<and> liveStreams (step (StartSettled Granted) (unmount (step StartClick init))) = [1]
   \<and> intervals (step (StartSettled Granted) (unmount (step StartClick init))) = [3]
   \<and> liveStreams (run init [Start Granted, Stop]) = []
   \<and> intervals (run init [Start Granted, Stop]) = []"
  by (simp add: init_def phase_def handler_defs unmount_def)

section \<open>Properties of the placeholder transcription\<close>






lemma sample_lengths: "map length sampleTranscriptions = [183, 130, 165]"
  by (simp add: sampleTranscriptions_def)



















section \<open>Properties of the result blob\<close>












end
